theory Spec2Isabelle
  imports Main
begin

section \<open>Python values and the operations the module applies to them\<close>

text \<open>
  The module \<^verbatim>\<open>pyattck/enterprise/attckobject.py\<close> works on objects decoded from the
  MITRE ATT&CK JSON document. A decoded value is \<^verbatim>\<open>None\<close>, a bool, an int, a str, a list
  or a dict with str keys (fractional numbers do not occur in the document and are left
  out). A dict is an association list in insertion order; lookups take the first binding
  of a key. A str is a list of characters, read as the code points below 256.
\<close>

datatype pyval =
    PNone
  | PBool bool
  | PInt int
  | PStr string
  | PList "pyval list"
  | PDict "(string \<times> pyval) list"

text \<open>The exceptions the operations below can raise.\<close>

datatype py_error = AttributeError | KeyError | TypeError | ValueError

text \<open>Sequencing of statements that may raise: the first exception ends the run.\<close>

definition bindE :: "'e + 'a \<Rightarrow> ('a \<Rightarrow> 'e + 'b) \<Rightarrow> 'e + 'b" where
  "bindE m f = (case m of Inl e \<Rightarrow> Inl e | Inr v \<Rightarrow> f v)"

text \<open>\<^verbatim>\<open>bool(v)\<close>, the test behind \<^verbatim>\<open>if v\<close> and \<^verbatim>\<open>not v\<close>.\<close>

fun truthy :: "pyval \<Rightarrow> bool" where
  "truthy PNone = False"
| "truthy (PBool b) = b"
| "truthy (PInt i) = (i \<noteq> 0)"
| "truthy (PStr s) = (s \<noteq> [])"
| "truthy (PList xs) = (xs \<noteq> [])"
| "truthy (PDict kvs) = (kvs \<noteq> [])"

text \<open>\<^verbatim>\<open>obj.get(k)\<close>: only a dict has the method.\<close>

fun py_get :: "pyval \<Rightarrow> string \<Rightarrow> py_error + pyval" where
  "py_get (PDict kvs) k = Inr (case map_of kvs k of None \<Rightarrow> PNone | Some v \<Rightarrow> v)"
| "py_get _ k = Inl AttributeError"

text \<open>\<^verbatim>\<open>obj[k]\<close> with a str \<^verbatim>\<open>k\<close>.\<close>

fun py_getitem :: "pyval \<Rightarrow> string \<Rightarrow> py_error + pyval" where
  "py_getitem (PDict kvs) k = (case map_of kvs k of None \<Rightarrow> Inl KeyError | Some v \<Rightarrow> Inr v)"
| "py_getitem _ k = Inl TypeError"

text \<open>\<^verbatim>\<open>sub in s\<close> on two strs: \<^verbatim>\<open>sub\<close> occurs in \<^verbatim>\<open>s\<close> as a contiguous block.\<close>

fun contains_str :: "string \<Rightarrow> string \<Rightarrow> bool" where
  "contains_str sub [] = (sub = [])"
| "contains_str sub (c # cs) = (take (length sub) (c # cs) = sub \<or> contains_str sub cs)"

text \<open>
  \<^verbatim>\<open>k in obj\<close> with a str \<^verbatim>\<open>k\<close>: a key of a dict, an element of a list, a substring
  of a str; \<^verbatim>\<open>None\<close>, bools and ints are not iterable.
\<close>

fun py_contains :: "string \<Rightarrow> pyval \<Rightarrow> py_error + bool" where
  "py_contains k (PDict kvs) = Inr (map_of kvs k \<noteq> None)"
| "py_contains k (PList xs) = Inr (PStr k \<in> set xs)"
| "py_contains k (PStr s) = Inr (contains_str k s)"
| "py_contains k _ = Inl TypeError"

text \<open>
  The items \<^verbatim>\<open>for item in v\<close> runs through: the elements of a list, the keys of a
  dict, the characters of a str.
\<close>

fun py_iter :: "pyval \<Rightarrow> py_error + pyval list" where
  "py_iter (PList xs) = Inr xs"
| "py_iter (PDict kvs) = Inr (map (\<lambda>kv. PStr (fst kv)) kvs)"
| "py_iter (PStr s) = Inr (map (\<lambda>c. PStr [c]) s)"
| "py_iter _ = Inl TypeError"

text \<open>\<^verbatim>\<open>s.split(sep)\<close> with a one-character separator.\<close>

fun split_on :: "char \<Rightarrow> string \<Rightarrow> string list" where
  "split_on sep [] = [[]]"
| "split_on sep (c # cs) =
     (if c = sep then [] # split_on sep cs
      else (case split_on sep cs of [] \<Rightarrow> [[c]] | w # ws \<Rightarrow> (c # w) # ws))"

text \<open>\<^verbatim>\<open>item.split(':')\<close>: only a str has the method.\<close>

fun py_split :: "pyval \<Rightarrow> py_error + string list" where
  "py_split (PStr s) = Inr (split_on CHR '':'' s)"
| "py_split _ = Inl AttributeError"

text \<open>
  \<^verbatim>\<open>c.isspace()\<close> on the code points below 256: tab to carriage return, the four
  separators 28 to 31, the space, NEL and the no-break space.
\<close>

definition is_space :: "char \<Rightarrow> bool" where
  "is_space c = (let n = (of_char c :: nat)
                 in (9 \<le> n \<and> n \<le> 13) \<or> (28 \<le> n \<and> n \<le> 32) \<or> n = 133 \<or> n = 160)"

text \<open>\<^verbatim>\<open>s.strip()\<close>.\<close>

definition py_strip :: "string \<Rightarrow> string" where
  "py_strip s = rev (dropWhile is_space (rev (dropWhile is_space s)))"

section \<open>The relationship index\<close>

text \<open>
  \<^verbatim>\<open>relationship_obj\<close> is a dict from identifiers to lists of identifiers. Its keys are
  whatever \<^verbatim>\<open>source_ref\<close> and \<^verbatim>\<open>target_ref\<close> hold: a list or a dict is unhashable
  (\<^verbatim>\<open>TypeError\<close>), and a bool is the same key as the int it equals.
\<close>

type_synonym rel_index = "(pyval \<times> pyval list) list"

fun hashable :: "pyval \<Rightarrow> bool" where
  "hashable (PList xs) = False"
| "hashable (PDict kvs) = False"
| "hashable _ = True"

fun key_norm :: "pyval \<Rightarrow> pyval" where
  "key_norm (PBool b) = PInt (if b then 1 else 0)"
| "key_norm v = v"

definition key_eq :: "pyval \<Rightarrow> pyval \<Rightarrow> bool" where
  "key_eq a b = (key_norm a = key_norm b)"

fun idx_lookup :: "rel_index \<Rightarrow> pyval \<Rightarrow> pyval list option" where
  "idx_lookup [] k = None"
| "idx_lookup ((k', vs) # r) k = (if key_eq k' k then Some vs else idx_lookup r k)"

text \<open>\<^verbatim>\<open>if k not in relationship_obj: relationship_obj[k] = []\<close>\<close>

definition idx_ensure :: "rel_index \<Rightarrow> pyval \<Rightarrow> py_error + rel_index" where
  "idx_ensure r k =
     (if \<not> hashable k then Inl TypeError
      else if idx_lookup r k = None then Inr (r @ [(k, [])]) else Inr r)"

text \<open>\<^verbatim>\<open>relationship_obj[k].append(v)\<close>, reached only after the key was ensured.\<close>

fun idx_append :: "rel_index \<Rightarrow> pyval \<Rightarrow> pyval \<Rightarrow> py_error + rel_index" where
  "idx_append [] k v = Inl KeyError"
| "idx_append ((k', vs) # r) k v =
     (if key_eq k' k then Inr ((k', vs @ [v]) # r)
      else bindE (idx_append r k v) (\<lambda>r'. Inr ((k', vs) # r')))"

text \<open>The body of the loop of \<^verbatim>\<open>set_relationships\<close>, for one item of the dataset.\<close>

definition scan_item :: "rel_index \<Rightarrow> pyval \<Rightarrow> py_error + rel_index" where
  "scan_item relationship_obj item =
     bindE (py_contains ''type'' item) (\<lambda>has_type.
       if has_type then
         bindE (py_getitem item ''type'') (\<lambda>ty.
           if ty = PStr ''relationship'' then
             bindE (py_getitem item ''source_ref'') (\<lambda>source_id.
             bindE (py_getitem item ''target_ref'') (\<lambda>target_id.
             bindE (idx_ensure relationship_obj source_id) (\<lambda>r1.
             bindE (idx_append r1 source_id target_id) (\<lambda>r2.
             bindE (idx_ensure r2 target_id) (\<lambda>r3.
             idx_append r3 target_id source_id)))))
           else Inr relationship_obj)
       else Inr relationship_obj)"

fun scan_items :: "rel_index \<Rightarrow> pyval list \<Rightarrow> py_error + rel_index" where
  "scan_items relationship_obj [] = Inr relationship_obj"
| "scan_items relationship_obj (item # items) =
     (case scan_item relationship_obj item of
        Inl e \<Rightarrow> Inl e
      | Inr r \<Rightarrow> scan_items r items)"

text \<open>
  \<^verbatim>\<open>set_relationships\<close>. The class attribute \<^verbatim>\<open>_RELATIONSHIPS\<close> is the state: \<open>None\<close>
  is Python's \<^verbatim>\<open>None\<close>, its initial value. The function returns the new state; an
  exception leaves the attribute as it was, since the assignment is the last statement.
  \<^verbatim>\<open>not AttckObject._RELATIONSHIPS\<close> holds of \<^verbatim>\<open>None\<close> and of the empty dict.
\<close>

definition set_relationships :: "rel_index option \<Rightarrow> pyval \<Rightarrow> py_error + rel_index option" where
  "set_relationships RELATIONSHIPS attck_obj =
     (if RELATIONSHIPS = None \<or> RELATIONSHIPS = Some [] then
        bindE (py_getitem attck_obj ''objects'') (\<lambda>objects.
        bindE (py_iter objects) (\<lambda>items.
        bindE (scan_items [] items) (\<lambda>relationship_obj.
        Inr (Some relationship_obj))))
      else Inr RELATIONSHIPS)"

section \<open>Attribute normalisation\<close>

text \<open>The loops of \<^verbatim>\<open>__set_alias\<close> append every item to \<^verbatim>\<open>return_list\<close>.\<close>

definition alias_items :: "pyval \<Rightarrow> string \<Rightarrow> py_error + pyval list" where
  "alias_items obj field =
     bindE (py_get obj field) (\<lambda>v.
       if truthy v then bindE (py_getitem obj field) py_iter else Inr [])"

definition set_alias :: "pyval \<Rightarrow> py_error + pyval" where
  "set_alias obj =
     bindE (alias_items obj ''aliases'') (\<lambda>xs.
     bindE (alias_items obj ''x_mitre_aliases'') (\<lambda>ys.
     Inr (PList (xs @ ys))))"

text \<open>\<^verbatim>\<open>_set_attribute\<close>: the body of the \<^verbatim>\<open>try\<close>, and the bare \<^verbatim>\<open>except\<close> around it.\<close>

definition set_attribute_try :: "pyval \<Rightarrow> string \<Rightarrow> py_error + pyval" where
  "set_attribute_try obj name =
     bindE (py_get obj name) (\<lambda>value. Inr (if \<not> truthy value then PNone else value))"

definition set_attribute :: "pyval \<Rightarrow> string \<Rightarrow> py_error + pyval" where
  "set_attribute obj name =
     (case set_attribute_try obj name of Inl e \<Rightarrow> Inr PNone | Inr v \<Rightarrow> Inr v)"

text \<open>
  \<^verbatim>\<open>_create_data_sources_dict\<close>. \<^verbatim>\<open>return_dict\<close> maps a str to a list of strs; unpacking
  the result of \<^verbatim>\<open>split\<close> into two names raises \<^verbatim>\<open>ValueError\<close> unless it has exactly
  two parts.
\<close>

type_synonym ds_dict = "(string \<times> string list) list"

definition ds_ensure :: "ds_dict \<Rightarrow> string \<Rightarrow> ds_dict" where
  "ds_ensure d k = (if map_of d k = None then d @ [(k, [])] else d)"

fun ds_append :: "ds_dict \<Rightarrow> string \<Rightarrow> string \<Rightarrow> py_error + ds_dict" where
  "ds_append [] k v = Inl KeyError"
| "ds_append ((k', vs) # d) k v =
     (if k' = k then Inr ((k', vs @ [v]) # d)
      else bindE (ds_append d k v) (\<lambda>d'. Inr ((k', vs) # d')))"

definition ds_item :: "ds_dict \<Rightarrow> pyval \<Rightarrow> py_error + ds_dict" where
  "ds_item return_dict item =
     bindE (py_contains '':'' item) (\<lambda>has_sep.
       if has_sep then
         bindE (py_split item) (\<lambda>parts.
           case parts of
             [data_source, data_component] \<Rightarrow>
               ds_append (ds_ensure return_dict data_source) data_source (py_strip data_component)
           | _ \<Rightarrow> Inl ValueError)
       else Inr return_dict)"

fun ds_items :: "ds_dict \<Rightarrow> pyval list \<Rightarrow> py_error + ds_dict" where
  "ds_items return_dict [] = Inr return_dict"
| "ds_items return_dict (item # items) =
     (case ds_item return_dict item of
        Inl e \<Rightarrow> Inl e
      | Inr d \<Rightarrow> ds_items d items)"

definition create_data_sources_dict :: "pyval \<Rightarrow> py_error + ds_dict" where
  "create_data_sources_dict obj =
     (case obj of PList items \<Rightarrow> ds_items [] items | _ \<Rightarrow> Inr [])"

text \<open>\<^verbatim>\<open>_set_list_items\<close>: without the key the function falls off its end and returns \<^verbatim>\<open>None\<close>.\<close>

definition set_list_items :: "pyval \<Rightarrow> string \<Rightarrow> py_error + pyval" where
  "set_list_items obj list_name =
     bindE (py_contains list_name obj) (\<lambda>present.
       if present then
         bindE (py_getitem obj list_name) (\<lambda>v.
         bindE (py_iter v) (\<lambda>item_value. Inr (PList item_value)))
       else Inr PNone)"

text \<open>\<^verbatim>\<open>_set_id\<close>: the loop over the external references, then the function.\<close>

fun set_id_scan :: "pyval list \<Rightarrow> py_error + pyval" where
  "set_id_scan [] = Inr (PStr ''No ID Defined'')"
| "set_id_scan (p # ps) =
     bindE (py_get p ''source_name'') (\<lambda>source_name.
       if source_name = PStr ''mitre-attack'' then py_get p ''external_id''
       else bindE (py_contains ''NIST'' source_name) (\<lambda>is_nist.
         if is_nist then py_get p ''external_id'' else set_id_scan ps))"

definition set_id :: "pyval \<Rightarrow> py_error + pyval" where
  "set_id obj =
     bindE (py_get obj ''external_references'') (\<lambda>refs.
       if truthy refs then
         bindE (py_getitem obj ''external_references'') (\<lambda>v.
         bindE (py_iter v) set_id_scan)
       else Inr (PStr ''No ID Defined''))"

text \<open>\<^verbatim>\<open>_set_reference\<close>\<close>

definition set_reference :: "pyval \<Rightarrow> py_error + pyval" where
  "set_reference obj =
     bindE (py_get obj ''external_references'') (\<lambda>refs.
       if truthy refs then
         bindE (py_getitem obj ''external_references'') (\<lambda>v.
         bindE (py_iter v) (\<lambda>return_list. Inr (PList return_list)))
       else Inr (PList []))"

section \<open>Construction of an object\<close>

record attck_object =
  self_id :: pyval
  self_name :: pyval
  self_alias :: pyval
  self_aliases :: pyval
  self_description :: pyval
  self_reference :: pyval
  self_created :: pyval
  self_modified :: pyval
  self_stix :: pyval
  self_type :: pyval

text \<open>
  \<^verbatim>\<open>__init__(self, **kwargs)\<close>, called with the fields of a record as keyword
  arguments. Binding the arguments comes first: a keyword \<^verbatim>\<open>self\<close> collides with the
  parameter of that name, and the call raises \<^verbatim>\<open>TypeError\<close> before the body runs.
  Otherwise \<^verbatim>\<open>kwargs\<close> is the dict of the fields, and the body sets the attributes in
  the order of the source.
\<close>

definition init :: "(string \<times> pyval) list \<Rightarrow> py_error + attck_object" where
  "init kwargs =
     (if map_of kwargs ''self'' \<noteq> None then Inl TypeError else
     bindE (set_id (PDict kwargs)) (\<lambda>v_id.
     bindE (set_attribute (PDict kwargs) ''name'') (\<lambda>v_name.
     bindE (set_alias (PDict kwargs)) (\<lambda>v_alias.
     bindE (set_attribute (PDict kwargs) ''description'') (\<lambda>v_description.
     bindE (set_reference (PDict kwargs)) (\<lambda>v_reference.
     bindE (set_attribute (PDict kwargs) ''created'') (\<lambda>v_created.
     bindE (set_attribute (PDict kwargs) ''modified'') (\<lambda>v_modified.
     bindE (set_attribute (PDict kwargs) ''id'') (\<lambda>v_stix.
     bindE (set_attribute (PDict kwargs) ''type'') (\<lambda>v_type.
     Inr \<lparr> self_id = v_id, self_name = v_name, self_alias = v_alias,
           self_aliases = v_alias, self_description = v_description,
           self_reference = v_reference, self_created = v_created,
           self_modified = v_modified, self_stix = v_stix, self_type = v_type \<rparr>))))))))))"

section \<open>The specification's vocabulary\<close>

text \<open>
  The specification's data model: a Reference is a mapping with a string
  \<^verbatim>\<open>source_name\<close>. \<open>source_name_of\<close> reads it, \<open>is_reference\<close> says that there is one.
\<close>

fun str_of :: "pyval option \<Rightarrow> string option" where
  "str_of (Some (PStr s)) = Some s"
| "str_of _ = None"

fun source_name_of :: "pyval \<Rightarrow> string option" where
  "source_name_of (PDict e) = str_of (map_of e ''source_name'')"
| "source_name_of _ = None"

definition is_reference :: "pyval \<Rightarrow> bool" where
  "is_reference p = (source_name_of p \<noteq> None)"

text \<open>
  The specification's \<^verbatim>\<open>extractField\<close> on a record: the value of the field as it is, or
  the absent-marker when the field is missing or its value is falsy.
\<close>

definition extractField :: "(string \<times> pyval) list \<Rightarrow> string \<Rightarrow> pyval" where
  "extractField record name =
     (case map_of record name of
        None \<Rightarrow> PNone
      | Some v \<Rightarrow> if truthy v then v else PNone)"

text \<open>
  The specification's qualifying entry: its \<^verbatim>\<open>source_name\<close> equals the canonical source
  name or contains the marker substring.
\<close>

definition qualifies :: "pyval \<Rightarrow> bool" where
  "qualifies p = (case source_name_of p of
                    None \<Rightarrow> False
                  | Some s \<Rightarrow> s = ''mitre-attack'' \<or> contains_str ''NIST'' s)"

text \<open>
  The specification's relationship record: an object of type \<^verbatim>\<open>relationship\<close> with the
  two identifiers \<^verbatim>\<open>source_ref\<close> and \<^verbatim>\<open>target_ref\<close>. \<open>edge_of\<close> reads the pair;
  \<open>wf_object\<close> says that the object is a mapping and, when it is of type
  \<^verbatim>\<open>relationship\<close>, that both identifiers are strings.
\<close>

fun edge_of :: "pyval \<Rightarrow> (string \<times> string) option" where
  "edge_of (PDict kv) =
     (if map_of kv ''type'' = Some (PStr ''relationship'') then
        (case str_of (map_of kv ''source_ref'') of
           None \<Rightarrow> None
         | Some s \<Rightarrow> (case str_of (map_of kv ''target_ref'') of
                       None \<Rightarrow> None
                     | Some t \<Rightarrow> Some (s, t)))
      else None)"
| "edge_of _ = None"

fun wf_object :: "pyval \<Rightarrow> bool" where
  "wf_object (PDict kv) =
     (if map_of kv ''type'' = Some (PStr ''relationship'')
      then edge_of (PDict kv) \<noteq> None else True)"
| "wf_object _ = False"

text \<open>
  What the specification has one record add to the adjacency list of the identifier \<open>k\<close>:
  the target when \<open>k\<close> is the source, then the source when \<open>k\<close> is the target. The
  adjacency list of \<open>k\<close> over a dataset is the concatenation over its records, in order.
\<close>

definition neighbours :: "string \<Rightarrow> pyval \<Rightarrow> pyval list" where
  "neighbours k item =
     (case edge_of item of
        None \<Rightarrow> []
      | Some (s, t) \<Rightarrow> (if s = k then [PStr t] else []) @ (if t = k then [PStr s] else []))"

definition adjacency :: "string \<Rightarrow> pyval list \<Rightarrow> pyval list" where
  "adjacency k objs = concat (map (neighbours k) objs)"

text \<open>
  A dict entry after some appends: a key nothing was appended to stays as it was, also
  when it was missing.
\<close>

definition extend :: "'a list option \<Rightarrow> 'a list \<Rightarrow> 'a list option" where
  "extend entry xs =
     (if xs = [] then entry
      else Some ((case entry of None \<Rightarrow> [] | Some vs \<Rightarrow> vs) @ xs))"

text \<open>
  The specification's data-source entry \<^verbatim>\<open><source>:<component>\<close>: the source is the text
  before the separator, the component the text after it. \<open>components_for k xs\<close> lists, in
  order, the trimmed components of the entries of \<open>xs\<close> that have a separator and the
  source \<open>k\<close>.
\<close>

definition source_of :: "string \<Rightarrow> string" where
  "source_of x = takeWhile (\<lambda>c. c \<noteq> CHR '':'') x"

definition component_of :: "string \<Rightarrow> string" where
  "component_of x = tl (dropWhile (\<lambda>c. c \<noteq> CHR '':'') x)"

definition components_for :: "string \<Rightarrow> string list \<Rightarrow> string list" where
  "components_for k xs =
     map (\<lambda>x. py_strip (component_of x))
         (filter (\<lambda>x. CHR '':'' \<in> set x \<and> source_of x = k) xs)"

section \<open>Properties\<close>

subsection \<open>Sequencing and the string operations\<close>

lemma bindE_Inl [simp]: "bindE (Inl e) f = Inl e"
  by (simp add: bindE_def)

lemma bindE_Inr [simp]: "bindE (Inr v) f = f v"
  by (simp add: bindE_def)

lemma contains_str_iff: "contains_str sub s = (\<exists>ps ss. s = ps @ sub @ ss)"
proof (induction s)
  case Nil
  then show ?case by simp
next
  case (Cons c cs)
  have "(take (length sub) (c # cs) = sub) = (\<exists>ss. c # cs = sub @ ss)"
    by (metis append_eq_conv_conj append_take_drop_id)
  moreover have "(\<exists>ps ss. c # cs = ps @ sub @ ss) =
                 ((\<exists>ss. c # cs = sub @ ss) \<or> (\<exists>ps ss. cs = ps @ sub @ ss))"
  proof
    assume "\<exists>ps ss. c # cs = ps @ sub @ ss"
    then obtain ps ss where eq: "c # cs = ps @ sub @ ss" by blast
    show "(\<exists>ss. c # cs = sub @ ss) \<or> (\<exists>ps ss. cs = ps @ sub @ ss)"
    proof (cases ps)
      case Nil
      with eq show ?thesis by auto
    next
      case (Cons p ps')
      with eq have "cs = ps' @ sub @ ss" by simp
      then show ?thesis by blast
    qed
  next
    assume "(\<exists>ss. c # cs = sub @ ss) \<or> (\<exists>ps ss. cs = ps @ sub @ ss)"
    then show "\<exists>ps ss. c # cs = ps @ sub @ ss"
    proof
      assume "\<exists>ss. c # cs = sub @ ss"
      then obtain ss where "c # cs = [] @ sub @ ss" by auto
      then show ?thesis by blast
    next
      assume "\<exists>ps ss. cs = ps @ sub @ ss"
      then obtain ps ss where "c # cs = (c # ps) @ sub @ ss" by auto
      then show ?thesis by blast
    qed
  qed
  ultimately show ?case using Cons.IH by simp
qed

lemma py_strip_trims:
  "\<exists>pre post. s = pre @ py_strip s @ post \<and> list_all is_space pre \<and> list_all is_space post \<and>
     (py_strip s \<noteq> [] \<longrightarrow> \<not> is_space (hd (py_strip s)) \<and> \<not> is_space (last (py_strip s)))"
proof -
  let ?a = "takeWhile is_space s"
  let ?m = "dropWhile is_space s"
  let ?b = "rev (takeWhile is_space (rev ?m))"
  have s: "s = ?a @ ?m" by simp
  have m: "?m = py_strip s @ ?b"
    unfolding py_strip_def by (metis rev_append rev_rev_ident takeWhile_dropWhile_id)
  have a: "list_all is_space ?a"
    by (metis list_all_iff set_takeWhileD)
  have b: "list_all is_space ?b"
    by (metis list_all_iff set_rev set_takeWhileD)
  have e: "py_strip s \<noteq> [] \<longrightarrow> \<not> is_space (last (py_strip s))"
    unfolding py_strip_def
    by (metis hd_dropWhile last_rev rev_is_Nil_conv)
  have h: "py_strip s \<noteq> [] \<longrightarrow> \<not> is_space (hd (py_strip s))"
  proof
    assume ne: "py_strip s \<noteq> []"
    with m have "hd ?m = hd (py_strip s)" by (metis hd_append2)
    moreover from ne m have "?m \<noteq> []" by (metis append_is_Nil_conv)
    ultimately show "\<not> is_space (hd (py_strip s))" by (metis hd_dropWhile)
  qed
  from s m have "s = ?a @ py_strip s @ ?b" by metis
  with a b e h show ?thesis by blast
qed

lemma split_on_length: "length (split_on c s) = Suc (count_list s c)"
  by (induction s) (auto split: list.splits)

lemma contains_str_single: "contains_str [c] s = (c \<in> set s)"
  by (induction s) auto

lemma split_on_no_separator: "c \<notin> set s \<Longrightarrow> split_on c s = [s]"
  by (induction s) auto

lemma split_on_one_separator:
  "c \<in> set s \<Longrightarrow> count_list s c \<le> 1 \<Longrightarrow>
   split_on c s = [takeWhile (\<lambda>x. x \<noteq> c) s, tl (dropWhile (\<lambda>x. x \<noteq> c) s)]"
proof (induction s)
  case Nil
  then show ?case by simp
next
  case (Cons a s)
  show ?case
  proof (cases "a = c")
    case True
    with Cons.prems have "count_list s c = 0" by simp
    then have "c \<notin> set s" by (simp add: count_list_0_iff)
    with True show ?thesis by (simp add: split_on_no_separator)
  next
    case False
    with Cons.prems have "c \<in> set s" "count_list s c \<le> 1" by simp_all
    with Cons.IH False show ?thesis by simp
  qed
qed

subsection \<open>Identifier resolution\<close>

lemma str_ofD: "str_of x = Some s \<Longrightarrow> x = Some (PStr s)"
  by (cases x rule: str_of.cases) simp_all

lemma source_name_ofD:
  "source_name_of p = Some s \<Longrightarrow> \<exists>e. p = PDict e \<and> map_of e ''source_name'' = Some (PStr s)"
  by (cases p) (simp_all add: str_ofD)

lemma set_id_scan_skip:
  assumes "is_reference p" and "\<not> qualifies p"
  shows "set_id_scan (p # ps) = set_id_scan ps"
proof -
  from assms(1) obtain s where s: "source_name_of p = Some s"
    by (auto simp: is_reference_def)
  then obtain e where e: "p = PDict e" "map_of e ''source_name'' = Some (PStr s)"
    using source_name_ofD by blast
  from assms(2) s have "s \<noteq> ''mitre-attack''" "\<not> contains_str ''NIST'' s"
    by (simp_all add: qualifies_def)
  with e show ?thesis by simp
qed

lemma set_id_scan_hit:
  assumes "qualifies p"
  shows "set_id_scan (p # ps) = py_get p ''external_id''"
proof -
  from assms obtain s where s: "source_name_of p = Some s"
    and q: "s = ''mitre-attack'' \<or> contains_str ''NIST'' s"
    by (auto simp: qualifies_def split: option.splits)
  then obtain e where e: "p = PDict e" "map_of e ''source_name'' = Some (PStr s)"
    using source_name_ofD by blast
  with q show ?thesis by auto
qed

lemma set_id_scan_find:
  "list_all is_reference (takeWhile (\<lambda>p. \<not> qualifies p) refs) \<Longrightarrow>
   set_id_scan refs = (case find qualifies refs of
                         None \<Rightarrow> Inr (PStr ''No ID Defined'')
                       | Some p \<Rightarrow> py_get p ''external_id'')"
proof (induction refs)
  case Nil
  then show ?case by simp
next
  case (Cons p ps)
  show ?case
  proof (cases "qualifies p")
    case True
    then show ?thesis using set_id_scan_hit [of p ps] by simp
  next
    case False
    with Cons.prems have "is_reference p"
      and "list_all is_reference (takeWhile (\<lambda>p. \<not> qualifies p) ps)" by simp_all
    with Cons.IH False show ?thesis using set_id_scan_skip [of p ps] by simp
  qed
qed

lemma set_id_scan_prefix:
  "\<forall>p\<in>set pre. is_reference p \<and> \<not> qualifies p \<Longrightarrow>
   set_id_scan (pre @ rest) = set_id_scan rest"
  by (induction pre) (simp_all add: set_id_scan_skip del: set_id_scan.simps)

lemma set_id_list:
  "map_of kvs ''external_references'' = Some (PList refs) \<Longrightarrow>
   set_id (PDict kvs) = set_id_scan refs"
  by (cases refs) (simp_all add: set_id_def)

lemma set_id_missing:
  "map_of kvs ''external_references'' = None \<Longrightarrow>
   set_id (PDict kvs) = Inr (PStr ''No ID Defined'')"
  by (simp add: set_id_def)

lemma set_id_falsy:
  "map_of kvs ''external_references'' = Some v \<Longrightarrow> \<not> truthy v \<Longrightarrow>
   set_id (PDict kvs) = Inr (PStr ''No ID Defined'')"
  by (simp add: set_id_def)

text \<open>
  Claim C1, as the code has it. When the list of external references holds an entry
  whose \<^verbatim>\<open>source_name\<close> is \<^verbatim>\<open>mitre-attack\<close> and no entry before it qualifies (each
  earlier entry is a reference whose \<^verbatim>\<open>source_name\<close> neither equals \<^verbatim>\<open>mitre-attack\<close>
  nor contains \<^verbatim>\<open>NIST\<close>), \<^verbatim>\<open>_set_id\<close> returns what that entry's \<^verbatim>\<open>external_id\<close> holds,
  whatever follows it in the list: the scan stops at the first qualifying entry.
\<close>

theorem set_id_first_mitre_attack:
  assumes "map_of kvs ''external_references'' = Some (PList (pre @ e # post))"
    and "source_name_of e = Some ''mitre-attack''"
    and "\<forall>p\<in>set pre. is_reference p \<and> \<not> qualifies p"
  shows "set_id (PDict kvs) = py_get e ''external_id''"
proof -
  have "qualifies e" using assms(2) by (simp add: qualifies_def)
  then have "set_id_scan (e # post) = py_get e ''external_id''"
    by (rule set_id_scan_hit)
  with assms(3) have "set_id_scan (pre @ e # post) = py_get e ''external_id''"
    by (simp add: set_id_scan_prefix)
  with assms(1) show ?thesis by (simp add: set_id_list)
qed

text \<open>
  A record with a \<^verbatim>\<open>capec\<close> entry, then the \<^verbatim>\<open>mitre-attack\<close> entry, then a
  \<^verbatim>\<open>NIST\<close> entry: the identifier is the one of the \<^verbatim>\<open>mitre-attack\<close> entry.
\<close>

theorem set_id_first_mitre_attack_witness:
  "set_id (PDict [(''type'', PStr ''attack-pattern''),
                  (''external_references'',
                   PList [PDict [(''source_name'', PStr ''capec''), (''external_id'', PStr ''CAPEC-13'')],
                          PDict [(''source_name'', PStr ''mitre-attack''), (''external_id'', PStr ''T1003'')],
                          PDict [(''source_name'', PStr ''NIST 800-53''), (''external_id'', PStr ''AC-1'')]])])
   = Inr (PStr ''T1003'')"
  using set_id_first_mitre_attack
    [of "[(''type'', PStr ''attack-pattern''),
          (''external_references'',
           PList [PDict [(''source_name'', PStr ''capec''), (''external_id'', PStr ''CAPEC-13'')],
                  PDict [(''source_name'', PStr ''mitre-attack''), (''external_id'', PStr ''T1003'')],
                  PDict [(''source_name'', PStr ''NIST 800-53''), (''external_id'', PStr ''AC-1'')]])]"
        "[PDict [(''source_name'', PStr ''capec''), (''external_id'', PStr ''CAPEC-13'')]]"
        "PDict [(''source_name'', PStr ''mitre-attack''), (''external_id'', PStr ''T1003'')]"
        "[PDict [(''source_name'', PStr ''NIST 800-53''), (''external_id'', PStr ''AC-1'')]]"]
  by (simp add: is_reference_def qualifies_def)

text \<open>
  Claim C1 as stated fails: with a \<^verbatim>\<open>NIST\<close> entry before the \<^verbatim>\<open>mitre-attack\<close> entry,
  \<^verbatim>\<open>_set_id\<close> returns the identifier of the \<^verbatim>\<open>NIST\<close> entry.
\<close>

theorem set_id_nist_before_mitre_attack:
  "set_id (PDict [(''external_references'',
                   PList [PDict [(''source_name'', PStr ''NIST 800-53''), (''external_id'', PStr ''AC-1'')],
                          PDict [(''source_name'', PStr ''mitre-attack''), (''external_id'', PStr ''T1003'')]])])
   = Inr (PStr ''AC-1'') \<and>
   set_id (PDict [(''external_references'',
                   PList [PDict [(''source_name'', PStr ''NIST 800-53''), (''external_id'', PStr ''AC-1'')],
                          PDict [(''source_name'', PStr ''mitre-attack''), (''external_id'', PStr ''T1003'')]])])
   \<noteq> Inr (PStr ''T1003'')"
  by (simp add: set_id_def)

text \<open>
  What \<^verbatim>\<open>_set_id\<close> returns on a record whose \<^verbatim>\<open>external_references\<close> is missing, falsy,
  or a list whose entries up to the first qualifying one are references: the sentinel
  when no entry qualifies, and otherwise what \<^verbatim>\<open>get('external_id')\<close> gives on the first
  qualifying entry.
\<close>

lemma set_id_first_qualifying:
  assumes "(map_of kvs ''external_references'' = None \<and> refs = [])
           \<or> (\<exists>v. map_of kvs ''external_references'' = Some v \<and> \<not> truthy v \<and> refs = [])
           \<or> map_of kvs ''external_references'' = Some (PList refs)"
    and "list_all is_reference (takeWhile (\<lambda>p. \<not> qualifies p) refs)"
  shows "set_id (PDict kvs) = (case find qualifies refs of
                                 None \<Rightarrow> Inr (PStr ''No ID Defined'')
                               | Some p \<Rightarrow> py_get p ''external_id'')"
  using assms set_id_scan_find [of refs]
  by (auto simp: set_id_list set_id_missing set_id_falsy)

text \<open>
  Claim C5: \<^verbatim>\<open>_set_id\<close> is to return a string, the \<^verbatim>\<open>external_id\<close> of the first
  qualifying entry or the sentinel \<^verbatim>\<open>No ID Defined\<close>, never the absent-marker; its
  docstring promises a \<^verbatim>\<open>str\<close>, and when it finds no entry it returns the sentinel. The
  code breaks this on a qualifying entry that has no \<^verbatim>\<open>external_id\<close>: it returns
  \<^verbatim>\<open>p.get('external_id')\<close>, which is \<^verbatim>\<open>None\<close>, where the sentinel was due.
\<close>

theorem set_id_returns_absent_marker:
  "set_id (PDict [(''external_references'',
                   PList [PDict [(''source_name'', PStr ''mitre-attack''),
                                 (''url'', PStr ''https://attack.mitre.org/'')]])])
   = Inr PNone"
  by (simp add: set_id_def)

subsection \<open>Aliases, attributes and list fields\<close>

lemma alias_items_list:
  "map_of kvs field = Some (PList xs) \<Longrightarrow> alias_items (PDict kvs) field = Inr xs"
  by (cases xs) (simp_all add: alias_items_def)

lemma alias_items_missing:
  "map_of kvs field = None \<Longrightarrow> alias_items (PDict kvs) field = Inr []"
  by (simp add: alias_items_def)

lemma set_alias_returns_list:
  "set_alias obj = Inr v \<Longrightarrow> \<exists>zs. v = PList zs"
  by (auto simp: set_alias_def bindE_def split: sum.splits)

text \<open>
  Claim C6. When each of \<^verbatim>\<open>aliases\<close> and \<^verbatim>\<open>x_mitre_aliases\<close> is a list or is missing
  (a missing field contributes nothing), \<^verbatim>\<open>__set_alias\<close> returns the entries of the
  first followed by the entries of the second, in order. Whatever the record, a value it
  returns is a list, never \<^verbatim>\<open>None\<close>.
\<close>

theorem set_alias_concat:
  assumes "map_of kvs ''aliases'' = Some (PList xs)
           \<or> (map_of kvs ''aliases'' = None \<and> xs = [])"
    and "map_of kvs ''x_mitre_aliases'' = Some (PList ys)
         \<or> (map_of kvs ''x_mitre_aliases'' = None \<and> ys = [])"
  shows "set_alias (PDict kvs) = Inr (PList (xs @ ys)) \<and>
         (\<forall>obj v. set_alias obj = Inr v \<longrightarrow> v \<noteq> PNone \<and> (\<exists>zs. v = PList zs))"
proof
  from assms(1) have a: "alias_items (PDict kvs) ''aliases'' = Inr xs"
    by (auto simp: alias_items_list alias_items_missing)
  from assms(2) have b: "alias_items (PDict kvs) ''x_mitre_aliases'' = Inr ys"
    by (auto simp: alias_items_list alias_items_missing)
  from a b show "set_alias (PDict kvs) = Inr (PList (xs @ ys))"
    by (simp add: set_alias_def)
  show "\<forall>obj v. set_alias obj = Inr v \<longrightarrow> v \<noteq> PNone \<and> (\<exists>zs. v = PList zs)"
    using set_alias_returns_list by blast
qed

text \<open>
  The record of the specification's example, and a record with neither field.
\<close>

theorem set_alias_concat_witness:
  "set_alias (PDict [(''aliases'', PList [PStr ''A'', PStr ''B'']),
                     (''x_mitre_aliases'', PList [PStr ''C''])])
     = Inr (PList [PStr ''A'', PStr ''B'', PStr ''C'']) \<and>
   set_alias (PDict [(''name'', PStr ''Mimikatz'')]) = Inr (PList [])"
  using set_alias_concat
      [of "[(''aliases'', PList [PStr ''A'', PStr ''B'']), (''x_mitre_aliases'', PList [PStr ''C''])]"
          "[PStr ''A'', PStr ''B'']" "[PStr ''C'']"]
    set_alias_concat [of "[(''name'', PStr ''Mimikatz'')]" "[]" "[]"]
  by simp

text \<open>
  Claim C7. \<^verbatim>\<open>_set_attribute\<close> returns the value of the field as it is when the field
  is present and truthy, and \<^verbatim>\<open>None\<close> when the field is missing, null, empty or falsy in
  any other way; an empty \<^verbatim>\<open>description\<close> gives \<^verbatim>\<open>None\<close>.
\<close>

theorem set_attribute_value_or_absent:
  "(map_of kvs name = Some v \<and> truthy v \<longrightarrow> set_attribute (PDict kvs) name = Inr v) \<and>
   (map_of kvs name = None \<longrightarrow> set_attribute (PDict kvs) name = Inr PNone) \<and>
   (map_of kvs name = Some v \<and> v \<in> {PNone, PStr [], PList [], PDict []}
      \<longrightarrow> set_attribute (PDict kvs) name = Inr PNone) \<and>
   (map_of kvs name = Some v \<and> \<not> truthy v \<longrightarrow> set_attribute (PDict kvs) name = Inr PNone) \<and>
   (map_of kvs ''description'' = Some (PStr '''')
      \<longrightarrow> set_attribute (PDict kvs) ''description'' = Inr PNone)"
  by (auto simp: set_attribute_def set_attribute_try_def)

text \<open>
  A record with a name and an empty description, read at a present field, at the
  empty one and at a missing one.
\<close>

theorem set_attribute_value_or_absent_witness:
  "set_attribute (PDict [(''name'', PStr ''Mimikatz''), (''description'', PStr '''')]) ''name''
     = Inr (PStr ''Mimikatz'') \<and>
   set_attribute (PDict [(''name'', PStr ''Mimikatz''), (''description'', PStr '''')]) ''description''
     = Inr PNone \<and>
   set_attribute (PDict [(''name'', PStr ''Mimikatz''), (''description'', PStr '''')]) ''created''
     = Inr PNone"
  using set_attribute_value_or_absent
      [of "[(''name'', PStr ''Mimikatz''), (''description'', PStr '''')]" "''name''" "PStr ''Mimikatz''"]
    set_attribute_value_or_absent
      [of "[(''name'', PStr ''Mimikatz''), (''description'', PStr '''')]" "''description''" "PStr ''''"]
    set_attribute_value_or_absent
      [of "[(''name'', PStr ''Mimikatz''), (''description'', PStr '''')]" "''created''" "PNone"]
  by simp

text \<open>
  Claim C8. \<^verbatim>\<open>_set_list_items\<close> returns the items of the list in order when the field
  is present, the empty list when the list is empty, and \<^verbatim>\<open>None\<close>, not an empty list,
  when the field is missing.
\<close>

theorem set_list_items_copy_or_absent:
  "(map_of kvs list_name = Some (PList xs) \<longrightarrow> set_list_items (PDict kvs) list_name = Inr (PList xs)) \<and>
   (map_of kvs list_name = Some (PList []) \<longrightarrow> set_list_items (PDict kvs) list_name = Inr (PList [])) \<and>
   (map_of kvs list_name = None \<longrightarrow> set_list_items (PDict kvs) list_name = Inr PNone)"
  by (simp add: set_list_items_def)

text \<open>
  A record read at a list of two items, at an empty list and at a missing field.
\<close>

theorem set_list_items_copy_or_absent_witness:
  "set_list_items (PDict [(''x_mitre_platforms'', PList [PStr ''Windows'', PStr ''Linux'']),
                          (''x_mitre_contributors'', PList [])]) ''x_mitre_platforms''
     = Inr (PList [PStr ''Windows'', PStr ''Linux'']) \<and>
   set_list_items (PDict [(''x_mitre_platforms'', PList [PStr ''Windows'', PStr ''Linux'']),
                          (''x_mitre_contributors'', PList [])]) ''x_mitre_contributors''
     = Inr (PList []) \<and>
   set_list_items (PDict [(''x_mitre_platforms'', PList [PStr ''Windows'', PStr ''Linux'']),
                          (''x_mitre_contributors'', PList [])]) ''x_mitre_permissions_required''
     = Inr PNone"
  using set_list_items_copy_or_absent
      [of "[(''x_mitre_platforms'', PList [PStr ''Windows'', PStr ''Linux'']),
            (''x_mitre_contributors'', PList [])]" "''x_mitre_platforms''"
          "[PStr ''Windows'', PStr ''Linux'']"]
    set_list_items_copy_or_absent
      [of "[(''x_mitre_platforms'', PList [PStr ''Windows'', PStr ''Linux'']),
            (''x_mitre_contributors'', PList [])]" "''x_mitre_contributors''" "[]"]
    set_list_items_copy_or_absent
      [of "[(''x_mitre_platforms'', PList [PStr ''Windows'', PStr ''Linux'']),
            (''x_mitre_contributors'', PList [])]" "''x_mitre_permissions_required''" "[]"]
  by simp

subsection \<open>Construction\<close>

lemma set_attribute_dict: "set_attribute (PDict kvs) name = Inr (extractField kvs name)"
  by (simp add: set_attribute_def set_attribute_try_def extractField_def split: option.splits)

lemma set_attribute_swallows:
  "set_attribute_try obj name = Inl e \<Longrightarrow> set_attribute obj name = Inr PNone"
  by (simp add: set_attribute_def)

lemma set_attribute_not_dict:
  "\<forall>kvs. obj \<noteq> PDict kvs \<Longrightarrow>
   set_attribute_try obj name = Inl AttributeError \<and> set_attribute obj name = Inr PNone"
  by (cases obj) (auto simp: set_attribute_def set_attribute_try_def)

lemma set_attribute_eq:
  "set_attribute obj name =
     Inr (case obj of PDict kvs \<Rightarrow> extractField kvs name | _ \<Rightarrow> PNone)"
  by (cases obj) (simp_all add: set_attribute_dict set_attribute_not_dict)

lemma alias_items_falsy:
  "map_of kvs field = Some v \<Longrightarrow> \<not> truthy v \<Longrightarrow> alias_items (PDict kvs) field = Inr []"
  by (simp add: alias_items_def)

lemma set_reference_list:
  "map_of kvs ''external_references'' = Some (PList refs) \<Longrightarrow>
   set_reference (PDict kvs) = Inr (PList refs)"
  by (cases refs) (simp_all add: set_reference_def)

lemma set_reference_missing:
  "map_of kvs ''external_references'' = None \<Longrightarrow> set_reference (PDict kvs) = Inr (PList [])"
  by (simp add: set_reference_def)

lemma set_reference_falsy:
  "map_of kvs ''external_references'' = Some v \<Longrightarrow> \<not> truthy v \<Longrightarrow>
   set_reference (PDict kvs) = Inr (PList [])"
  by (simp add: set_reference_def)

lemma set_id_scan_total:
  assumes refs: "list_all is_reference (takeWhile (\<lambda>p. \<not> qualifies p) refs)"
  shows "\<exists>v. set_id_scan refs = Inr v"
proof (cases "find qualifies refs")
  case None
  with refs show ?thesis by (simp add: set_id_scan_find)
next
  case (Some p)
  then have "qualifies p" by (auto simp: find_Some_iff)
  then obtain e where "p = PDict e"
    using source_name_ofD by (auto simp: qualifies_def split: option.splits)
  with refs Some show ?thesis by (simp add: set_id_scan_find)
qed

lemma init_returns:
  assumes self: "map_of kwargs ''self'' = None"
    and id: "set_id (PDict kwargs) = Inr v_id"
    and al: "set_alias (PDict kwargs) = Inr v_alias"
    and rf: "set_reference (PDict kwargs) = Inr v_reference"
  shows "init kwargs =
           Inr \<lparr> self_id = v_id, self_name = extractField kwargs ''name'',
                 self_alias = v_alias, self_aliases = v_alias,
                 self_description = extractField kwargs ''description'',
                 self_reference = v_reference,
                 self_created = extractField kwargs ''created'',
                 self_modified = extractField kwargs ''modified'',
                 self_stix = extractField kwargs ''id'',
                 self_type = extractField kwargs ''type'' \<rparr>"
  unfolding init_def by (simp add: self id al rf set_attribute_dict)

lemma init_self_keyword:
  "map_of kwargs ''self'' \<noteq> None \<Longrightarrow> init kwargs = Inl TypeError"
  by (simp add: init_def)

text \<open>
  Claim C3, as the code has it. \<^verbatim>\<open>_set_attribute\<close> never raises, whatever it is given:
  an exception of the lookup is swallowed and gives \<^verbatim>\<open>None\<close>, so that what is not a
  mapping gives \<^verbatim>\<open>None\<close> for every field, and a mapping gives the value of the field or
  \<^verbatim>\<open>None\<close> when it is missing or falsy. The construction of an object completes for
  every record that has no field named \<^verbatim>\<open>self\<close> (the name of the constructor's own
  parameter), whose \<^verbatim>\<open>external_references\<close> is missing, falsy, or a list whose entries
  up to the first qualifying one are references (mappings with a string
  \<^verbatim>\<open>source_name\<close>), and whose two alias fields are each missing, falsy or a list. The
  other fields may hold anything: each of name, description, created, modified, id and
  type degrades on its own to \<^verbatim>\<open>None\<close> when missing or falsy, and the identifier, the
  aliases and the references are what \<^verbatim>\<open>_set_id\<close>, \<^verbatim>\<open>__set_alias\<close> and
  \<^verbatim>\<open>_set_reference\<close> return.
\<close>

theorem init_completes_on_references:
  assumes "map_of kwargs ''self'' = None"
    and "map_of kwargs ''external_references'' = None
         \<or> (\<exists>v. map_of kwargs ''external_references'' = Some v \<and> \<not> truthy v)
         \<or> (\<exists>refs. map_of kwargs ''external_references'' = Some (PList refs)
                    \<and> list_all is_reference (takeWhile (\<lambda>p. \<not> qualifies p) refs))"
    and "map_of kwargs ''aliases'' = None
         \<or> (\<exists>v. map_of kwargs ''aliases'' = Some v \<and> \<not> truthy v)
         \<or> (\<exists>xs. map_of kwargs ''aliases'' = Some (PList xs))"
    and "map_of kwargs ''x_mitre_aliases'' = None
         \<or> (\<exists>v. map_of kwargs ''x_mitre_aliases'' = Some v \<and> \<not> truthy v)
         \<or> (\<exists>ys. map_of kwargs ''x_mitre_aliases'' = Some (PList ys))"
  shows "(\<exists>entity. init kwargs = Inr entity \<and>
            set_id (PDict kwargs) = Inr (self_id entity) \<and>
            self_name entity = extractField kwargs ''name'' \<and>
            set_alias (PDict kwargs) = Inr (self_alias entity) \<and>
            self_aliases entity = self_alias entity \<and>
            self_description entity = extractField kwargs ''description'' \<and>
            set_reference (PDict kwargs) = Inr (self_reference entity) \<and>
            self_created entity = extractField kwargs ''created'' \<and>
            self_modified entity = extractField kwargs ''modified'' \<and>
            self_stix entity = extractField kwargs ''id'' \<and>
            self_type entity = extractField kwargs ''type'') \<and>
         (\<forall>obj name. set_attribute obj name =
            Inr (case obj of PDict record \<Rightarrow> extractField record name | _ \<Rightarrow> PNone)) \<and>
         (\<forall>obj name e. set_attribute_try obj name = Inl e
            \<longrightarrow> set_attribute obj name = Inr PNone)"
proof (intro conjI)
  have "\<exists>v_id. set_id (PDict kwargs) = Inr v_id"
  proof (cases "map_of kwargs ''external_references''")
    case None
    then show ?thesis by (simp add: set_id_missing)
  next
    case (Some v)
    show ?thesis
    proof (cases "truthy v")
      case False
      with Some show ?thesis by (simp add: set_id_falsy)
    next
      case True
      with Some assms(2) obtain refs where "v = PList refs"
        and "list_all is_reference (takeWhile (\<lambda>p. \<not> qualifies p) refs)"
        by auto
      with Some show ?thesis by (simp add: set_id_list set_id_scan_total)
    qed
  qed
  then obtain v_id where id: "set_id (PDict kwargs) = Inr v_id" ..
  from assms(2) obtain v_ref where rf: "set_reference (PDict kwargs) = Inr v_ref"
    by (auto simp: set_reference_missing set_reference_list set_reference_falsy)
  from assms(3) obtain xs where a: "alias_items (PDict kwargs) ''aliases'' = Inr xs"
    by (auto simp: alias_items_list alias_items_missing alias_items_falsy)
  from assms(4) obtain ys where b: "alias_items (PDict kwargs) ''x_mitre_aliases'' = Inr ys"
    by (auto simp: alias_items_list alias_items_missing alias_items_falsy)
  from a b have al: "set_alias (PDict kwargs) = Inr (PList (xs @ ys))"
    by (simp add: set_alias_def)
  from init_returns [OF assms(1) id al rf] id al rf
  show "\<exists>entity. init kwargs = Inr entity \<and>
            set_id (PDict kwargs) = Inr (self_id entity) \<and>
            self_name entity = extractField kwargs ''name'' \<and>
            set_alias (PDict kwargs) = Inr (self_alias entity) \<and>
            self_aliases entity = self_alias entity \<and>
            self_description entity = extractField kwargs ''description'' \<and>
            set_reference (PDict kwargs) = Inr (self_reference entity) \<and>
            self_created entity = extractField kwargs ''created'' \<and>
            self_modified entity = extractField kwargs ''modified'' \<and>
            self_stix entity = extractField kwargs ''id'' \<and>
            self_type entity = extractField kwargs ''type''"
    by simp
  show "\<forall>obj name. set_attribute obj name =
            Inr (case obj of PDict record \<Rightarrow> extractField record name | _ \<Rightarrow> PNone)"
    using set_attribute_eq by blast
  show "\<forall>obj name e. set_attribute_try obj name = Inl e
            \<longrightarrow> set_attribute obj name = Inr PNone"
    using set_attribute_swallows by blast
qed

text \<open>
  A record with an integer where the description should be, a null name, an empty alias
  list and an entry without \<^verbatim>\<open>source_name\<close> after the qualifying one: construction
  completes, and only the name degrades. A list in the place of a record gives
  \<^verbatim>\<open>None\<close>.
\<close>

theorem init_completes_on_references_witness:
  "init [(''type'', PStr ''malware''), (''name'', PNone), (''description'', PInt 7),
         (''aliases'', PList []),
         (''external_references'',
          PList [PDict [(''source_name'', PStr ''mitre-attack''),
                        (''external_id'', PStr ''S0002'')],
                 PDict [(''url'', PStr ''https://attack.mitre.org/'')]])]
     = Inr \<lparr> self_id = PStr ''S0002'', self_name = PNone,
             self_alias = PList [], self_aliases = PList [],
             self_description = PInt 7,
             self_reference =
               PList [PDict [(''source_name'', PStr ''mitre-attack''),
                             (''external_id'', PStr ''S0002'')],
                      PDict [(''url'', PStr ''https://attack.mitre.org/'')]],
             self_created = PNone, self_modified = PNone, self_stix = PNone,
             self_type = PStr ''malware'' \<rparr> \<and>
   set_attribute (PList [PStr ''name'']) ''name'' = Inr PNone"
proof -
  let ?refs = "[PDict [(''source_name'', PStr ''mitre-attack''),
                       (''external_id'', PStr ''S0002'')],
                PDict [(''url'', PStr ''https://attack.mitre.org/'')]]"
  let ?kw = "[(''type'', PStr ''malware''), (''name'', PNone), (''description'', PInt 7),
              (''aliases'', PList []), (''external_references'', PList ?refs)]"
  have h0: "map_of ?kw ''self'' = None" by simp
  have h1: "map_of ?kw ''external_references'' = None
         \<or> (\<exists>v. map_of ?kw ''external_references'' = Some v \<and> \<not> truthy v)
         \<or> (\<exists>refs. map_of ?kw ''external_references'' = Some (PList refs)
                    \<and> list_all is_reference (takeWhile (\<lambda>p. \<not> qualifies p) refs))"
    by (simp add: qualifies_def)
  have h2: "map_of ?kw ''aliases'' = None
         \<or> (\<exists>v. map_of ?kw ''aliases'' = Some v \<and> \<not> truthy v)
         \<or> (\<exists>xs. map_of ?kw ''aliases'' = Some (PList xs))"
    by simp
  have h3: "map_of ?kw ''x_mitre_aliases'' = None
         \<or> (\<exists>v. map_of ?kw ''x_mitre_aliases'' = Some v \<and> \<not> truthy v)
         \<or> (\<exists>ys. map_of ?kw ''x_mitre_aliases'' = Some (PList ys))"
    by simp
  note main = init_completes_on_references [OF h0 h1 h2 h3]
  from main obtain entity where e: "init ?kw = Inr entity"
    and f: "set_id (PDict ?kw) = Inr (self_id entity)"
       "self_name entity = extractField ?kw ''name''"
       "set_alias (PDict ?kw) = Inr (self_alias entity)"
       "self_aliases entity = self_alias entity"
       "self_description entity = extractField ?kw ''description''"
       "set_reference (PDict ?kw) = Inr (self_reference entity)"
       "self_created entity = extractField ?kw ''created''"
       "self_modified entity = extractField ?kw ''modified''"
       "self_stix entity = extractField ?kw ''id''"
       "self_type entity = extractField ?kw ''type''"
    by blast
  from f have "entity = \<lparr> self_id = PStr ''S0002'', self_name = PNone,
             self_alias = PList [], self_aliases = PList [],
             self_description = PInt 7,
             self_reference = PList ?refs,
             self_created = PNone, self_modified = PNone, self_stix = PNone,
             self_type = PStr ''malware'' \<rparr>"
    by (cases entity)
       (simp add: extractField_def set_id_def set_alias_def alias_items_def set_reference_def)
  moreover from main have "set_attribute (PList [PStr ''name'']) ''name'' = Inr PNone"
    by simp
  ultimately show ?thesis using e by simp
qed

text \<open>
  Claim C3 as stated fails: an external reference without \<^verbatim>\<open>source_name\<close> makes the
  construction raise \<^verbatim>\<open>TypeError\<close> (\<^verbatim>\<open>'NIST' in None\<close>), and a data-source item with
  two separators makes \<^verbatim>\<open>_create_data_sources_dict\<close> raise \<^verbatim>\<open>ValueError\<close>.
\<close>

theorem init_raises_on_malformed_record:
  "init [(''type'', PStr ''malware''),
         (''external_references'', PList [PDict [(''external_id'', PStr ''S0002'')]])]
     = Inl TypeError \<and>
   create_data_sources_dict (PList [PStr ''Network Traffic: Flow: Content''])
     = Inl ValueError"
  by (simp add: init_def set_id_def create_data_sources_dict_def ds_item_def)

subsection \<open>The relationship index\<close>

lemma extend_Nil [simp]: "extend entry [] = entry"
  by (simp add: extend_def)

lemma extend_append: "extend (extend entry xs) ys = extend entry (xs @ ys)"
  by (simp add: extend_def)

lemma key_eq_PStr [simp]: "key_eq k' (PStr k) = (k' = PStr k)"
  by (cases k') (simp_all add: key_eq_def)

lemma key_eq_PStr_left [simp]: "key_eq (PStr k) k' = (k' = PStr k)"
  by (cases k') (auto simp: key_eq_def)

lemma idx_lookup_snoc:
  "idx_lookup (r @ [(k, vs)]) k' =
     (case idx_lookup r k' of Some v \<Rightarrow> Some v | None \<Rightarrow> if key_eq k k' then Some vs else None)"
  by (induction r) auto

lemma idx_ensure_PStr:
  "\<exists>r'. idx_ensure r (PStr s) = Inr r' \<and>
        (\<forall>k. idx_lookup r' (PStr k) =
              (case idx_lookup r (PStr k) of Some v \<Rightarrow> Some v
               | None \<Rightarrow> if s = k then Some [] else None))"
  by (auto simp: idx_ensure_def idx_lookup_snoc split: option.splits)

lemma idx_append_PStr:
  "idx_lookup r (PStr s) \<noteq> None \<Longrightarrow>
   \<exists>r'. idx_append r (PStr s) v = Inr r' \<and>
        (\<forall>k. idx_lookup r' (PStr k) =
              (if s = k then map_option (\<lambda>vs. vs @ [v]) (idx_lookup r (PStr k))
               else idx_lookup r (PStr k)))"
proof (induction r)
  case Nil
  then show ?case by simp
next
  case (Cons kv r)
  obtain k' vs where kv: "kv = (k', vs)" by (cases kv)
  show ?case
  proof (cases "k' = PStr s")
    case True
    with kv show ?thesis by auto
  next
    case False
    with Cons.prems kv have "idx_lookup r (PStr s) \<noteq> None" by simp
    then obtain r' where r': "idx_append r (PStr s) v = Inr r'"
      and look: "\<forall>k. idx_lookup r' (PStr k) =
              (if s = k then map_option (\<lambda>vs. vs @ [v]) (idx_lookup r (PStr k))
               else idx_lookup r (PStr k))"
      using Cons.IH by blast
    from False kv r' have "idx_append (kv # r) (PStr s) v = Inr ((k', vs) # r')" by simp
    moreover from False kv look have "\<forall>k. idx_lookup ((k', vs) # r') (PStr k) =
              (if s = k then map_option (\<lambda>vs. vs @ [v]) (idx_lookup (kv # r) (PStr k))
               else idx_lookup (kv # r) (PStr k))" by auto
    ultimately show ?thesis by blast
  qed
qed

lemma add_edge_half:
  "\<exists>r2. bindE (idx_ensure r (PStr s)) (\<lambda>r1. idx_append r1 (PStr s) v) = Inr r2 \<and>
        (\<forall>k. idx_lookup r2 (PStr k) = extend (idx_lookup r (PStr k)) (if s = k then [v] else []))"
proof -
  obtain r1 where r1: "idx_ensure r (PStr s) = Inr r1"
    and l1: "\<forall>k. idx_lookup r1 (PStr k) =
              (case idx_lookup r (PStr k) of Some v \<Rightarrow> Some v
               | None \<Rightarrow> if s = k then Some [] else None)"
    using idx_ensure_PStr by blast
  from l1 have "idx_lookup r1 (PStr s) \<noteq> None" by (simp split: option.splits)
  then obtain r2 where r2: "idx_append r1 (PStr s) v = Inr r2"
    and l2: "\<forall>k. idx_lookup r2 (PStr k) =
              (if s = k then map_option (\<lambda>vs. vs @ [v]) (idx_lookup r1 (PStr k))
               else idx_lookup r1 (PStr k))"
    using idx_append_PStr by blast
  have "\<forall>k. idx_lookup r2 (PStr k) = extend (idx_lookup r (PStr k)) (if s = k then [v] else [])"
    using l1 l2 by (auto simp: extend_def split: option.splits)
  with r1 r2 show ?thesis by simp
qed

lemma scan_item_relationship:
  assumes ty: "map_of kv ''type'' = Some (PStr ''relationship'')"
    and src: "map_of kv ''source_ref'' = Some (PStr s)"
    and tgt: "map_of kv ''target_ref'' = Some (PStr t)"
  shows "\<exists>r'. scan_item r (PDict kv) = Inr r' \<and>
           (\<forall>k. idx_lookup r' (PStr k) =
                 extend (idx_lookup r (PStr k))
                   ((if s = k then [PStr t] else []) @ (if t = k then [PStr s] else [])))"
proof -
  obtain r2 where r2: "bindE (idx_ensure r (PStr s)) (\<lambda>r1. idx_append r1 (PStr s) (PStr t)) = Inr r2"
    and l2: "\<forall>k. idx_lookup r2 (PStr k) = extend (idx_lookup r (PStr k)) (if s = k then [PStr t] else [])"
    using add_edge_half by blast
  obtain r4 where r4: "bindE (idx_ensure r2 (PStr t)) (\<lambda>r3. idx_append r3 (PStr t) (PStr s)) = Inr r4"
    and l4: "\<forall>k. idx_lookup r4 (PStr k) = extend (idx_lookup r2 (PStr k)) (if t = k then [PStr s] else [])"
    using add_edge_half by blast
  from r2 obtain r1 where r1: "idx_ensure r (PStr s) = Inr r1" "idx_append r1 (PStr s) (PStr t) = Inr r2"
    by (auto simp: bindE_def split: sum.splits)
  from ty src tgt r1 r4 have "scan_item r (PDict kv) = Inr r4"
    by (simp add: scan_item_def)
  moreover from l2 l4 have "\<forall>k. idx_lookup r4 (PStr k) =
                 extend (idx_lookup r (PStr k))
                   ((if s = k then [PStr t] else []) @ (if t = k then [PStr s] else []))"
    by (simp add: extend_append)
  ultimately show ?thesis by blast
qed

lemma scan_item_other:
  "map_of kv ''type'' \<noteq> Some (PStr ''relationship'') \<Longrightarrow> scan_item r (PDict kv) = Inr r"
  by (cases "map_of kv ''type''") (simp_all add: scan_item_def)

lemma edge_ofD:
  assumes "edge_of (PDict kv) = Some (s, t)"
  shows "map_of kv ''type'' = Some (PStr ''relationship'') \<and>
         map_of kv ''source_ref'' = Some (PStr s) \<and> map_of kv ''target_ref'' = Some (PStr t)"
proof -
  from assms have ty: "map_of kv ''type'' = Some (PStr ''relationship'')"
    by (simp split: if_splits)
  with assms have "str_of (map_of kv ''source_ref'') = Some s"
    and "str_of (map_of kv ''target_ref'') = Some t"
    by (simp_all split: option.splits)
  then have "map_of kv ''source_ref'' = Some (PStr s)" and "map_of kv ''target_ref'' = Some (PStr t)"
    by (simp_all add: str_ofD)
  with ty show ?thesis by simp
qed

lemma scan_item_wf:
  assumes "wf_object item"
  shows "\<exists>r'. scan_item r item = Inr r' \<and>
           (\<forall>k. idx_lookup r' (PStr k) = extend (idx_lookup r (PStr k)) (neighbours k item))"
proof -
  from assms obtain kv where item: "item = PDict kv" by (cases item) simp_all
  show ?thesis
  proof (cases "map_of kv ''type'' = Some (PStr ''relationship'')")
    case True
    with assms item obtain s t where e: "edge_of (PDict kv) = Some (s, t)" by auto
    then have "map_of kv ''source_ref'' = Some (PStr s)" "map_of kv ''target_ref'' = Some (PStr t)"
      using edge_ofD by blast+
    with True show ?thesis
      using scan_item_relationship [of kv s t r] e item by (simp add: neighbours_def)
  next
    case False
    then have "edge_of (PDict kv) = None" by simp
    with False item show ?thesis by (simp add: scan_item_other neighbours_def)
  qed
qed

lemma scan_items_wf:
  "list_all wf_object objs \<Longrightarrow>
   \<exists>r'. scan_items r objs = Inr r' \<and>
        (\<forall>k. idx_lookup r' (PStr k) = extend (idx_lookup r (PStr k)) (adjacency k objs))"
proof (induction objs arbitrary: r)
  case Nil
  then show ?case by (simp add: adjacency_def)
next
  case (Cons item objs)
  then have "wf_object item" and rest: "list_all wf_object objs" by simp_all
  then obtain r1 where r1: "scan_item r item = Inr r1"
    and l1: "\<forall>k. idx_lookup r1 (PStr k) = extend (idx_lookup r (PStr k)) (neighbours k item)"
    using scan_item_wf by blast
  from Cons.IH [OF rest] obtain r' where r': "scan_items r1 objs = Inr r'"
    and l': "\<forall>k. idx_lookup r' (PStr k) = extend (idx_lookup r1 (PStr k)) (adjacency k objs)"
    by blast
  from r1 r' have "scan_items r (item # objs) = Inr r'" by simp
  moreover from l1 l' have "\<forall>k. idx_lookup r' (PStr k) =
      extend (idx_lookup r (PStr k)) (adjacency k (item # objs))"
    by (simp add: extend_append adjacency_def)
  ultimately show ?case by blast
qed

text \<open>
  Claim C4. For a dataset whose objects are mappings and whose relationship records
  carry string \<^verbatim>\<open>source_ref\<close> and \<^verbatim>\<open>target_ref\<close>, the first call of
  \<^verbatim>\<open>set_relationships\<close> builds an index in which the adjacency list of every identifier
  is, in the order of the dataset, the targets of the records it is the source of and the
  sources of the records it is the target of: each record appends its target to the list
  of its source and then its source to the list of its target. On the two records
  A-B and A-C the index maps A to [B, C] and B to [A].
\<close>

theorem relationships_index_edges:
  assumes "map_of ds ''objects'' = Some (PList objs)" and "list_all wf_object objs"
  shows "(\<exists>r. set_relationships None (PDict ds) = Inr (Some r) \<and>
              (\<forall>k. idx_lookup r (PStr k) =
                    (if adjacency k objs = [] then None else Some (adjacency k objs)))) \<and>
         set_relationships None
           (PDict [(''objects'',
                    PList [PDict [(''type'', PStr ''relationship''),
                                  (''source_ref'', PStr ''A''), (''target_ref'', PStr ''B'')],
                           PDict [(''type'', PStr ''relationship''),
                                  (''source_ref'', PStr ''A''), (''target_ref'', PStr ''C'')]])])
           = Inr (Some [(PStr ''A'', [PStr ''B'', PStr ''C'']),
                        (PStr ''B'', [PStr ''A'']), (PStr ''C'', [PStr ''A''])])"
proof
  from assms(2) obtain r where r: "scan_items [] objs = Inr r"
    and l: "\<forall>k. idx_lookup r (PStr k) = extend (idx_lookup [] (PStr k)) (adjacency k objs)"
    using scan_items_wf by blast
  from assms(1) r have "set_relationships None (PDict ds) = Inr (Some r)"
    by (simp add: set_relationships_def)
  moreover from l have "\<forall>k. idx_lookup r (PStr k) =
                   (if adjacency k objs = [] then None else Some (adjacency k objs))"
    by (simp add: extend_def)
  ultimately show "\<exists>r. set_relationships None (PDict ds) = Inr (Some r) \<and>
              (\<forall>k. idx_lookup r (PStr k) =
                    (if adjacency k objs = [] then None else Some (adjacency k objs)))"
    by blast
  show "set_relationships None
           (PDict [(''objects'',
                    PList [PDict [(''type'', PStr ''relationship''),
                                  (''source_ref'', PStr ''A''), (''target_ref'', PStr ''B'')],
                           PDict [(''type'', PStr ''relationship''),
                                  (''source_ref'', PStr ''A''), (''target_ref'', PStr ''C'')]])])
           = Inr (Some [(PStr ''A'', [PStr ''B'', PStr ''C'']),
                        (PStr ''B'', [PStr ''A'']), (PStr ''C'', [PStr ''A''])])"
    by (simp add: set_relationships_def scan_item_def idx_ensure_def)
qed

text \<open>
  The dataset of the example, with an object of another type between the two
  relationship records.
\<close>

theorem relationships_index_edges_witness:
  "\<exists>r. set_relationships None
          (PDict [(''type'', PStr ''bundle''),
                  (''objects'',
                   PList [PDict [(''type'', PStr ''relationship''),
                                 (''source_ref'', PStr ''A''), (''target_ref'', PStr ''B'')],
                          PDict [(''type'', PStr ''malware''), (''name'', PStr ''Mimikatz'')],
                          PDict [(''type'', PStr ''relationship''),
                                 (''source_ref'', PStr ''A''), (''target_ref'', PStr ''C'')]])])
        = Inr (Some r) \<and>
       idx_lookup r (PStr ''A'') = Some [PStr ''B'', PStr ''C''] \<and>
       idx_lookup r (PStr ''B'') = Some [PStr ''A''] \<and>
       idx_lookup r (PStr ''C'') = Some [PStr ''A''] \<and>
       idx_lookup r (PStr ''D'') = None"
proof -
  let ?objs = "[PDict [(''type'', PStr ''relationship''),
                       (''source_ref'', PStr ''A''), (''target_ref'', PStr ''B'')],
                PDict [(''type'', PStr ''malware''), (''name'', PStr ''Mimikatz'')],
                PDict [(''type'', PStr ''relationship''),
                       (''source_ref'', PStr ''A''), (''target_ref'', PStr ''C'')]]"
  let ?ds = "[(''type'', PStr ''bundle''), (''objects'', PList ?objs)]"
  have objects: "map_of ?ds ''objects'' = Some (PList ?objs)" by simp
  have wf: "list_all wf_object ?objs" by simp
  from relationships_index_edges [OF objects wf]
  obtain r where r: "set_relationships None (PDict ?ds) = Inr (Some r)"
    and l: "\<forall>k. idx_lookup r (PStr k) =
              (if adjacency k ?objs = [] then None else Some (adjacency k ?objs))"
    by blast
  from l have "idx_lookup r (PStr ''A'') = Some [PStr ''B'', PStr ''C'']"
    by (simp add: adjacency_def neighbours_def)
  moreover from l have "idx_lookup r (PStr ''B'') = Some [PStr ''A'']"
    by (simp add: adjacency_def neighbours_def)
  moreover from l have "idx_lookup r (PStr ''C'') = Some [PStr ''A'']"
    by (simp add: adjacency_def neighbours_def)
  moreover from l have "idx_lookup r (PStr ''D'') = None"
    by (simp add: adjacency_def neighbours_def)
  ultimately show ?thesis using r by blast
qed

text \<open>
  Claim C10. A relationship record whose \<^verbatim>\<open>source_ref\<close> and \<^verbatim>\<open>target_ref\<close> are the same
  identifier X appends X twice to the adjacency list of X and changes no other list; a
  dataset made of that one record gives the index that maps X to [X, X].
\<close>

theorem scan_item_self_loop:
  assumes "map_of kv ''type'' = Some (PStr ''relationship'')"
    and "map_of kv ''source_ref'' = Some (PStr x)"
    and "map_of kv ''target_ref'' = Some (PStr x)"
  shows "(\<exists>r'. scan_item r (PDict kv) = Inr r' \<and>
            idx_lookup r' (PStr x) =
              Some ((case idx_lookup r (PStr x) of None \<Rightarrow> [] | Some vs \<Rightarrow> vs) @ [PStr x, PStr x]) \<and>
            (\<forall>k. k \<noteq> x \<longrightarrow> idx_lookup r' (PStr k) = idx_lookup r (PStr k))) \<and>
         set_relationships None (PDict [(''objects'', PList [PDict kv])])
           = Inr (Some [(PStr x, [PStr x, PStr x])])"
proof
  from scan_item_relationship [OF assms, of r]
  obtain r' where r': "scan_item r (PDict kv) = Inr r'"
    and l: "\<forall>k. idx_lookup r' (PStr k) =
                 extend (idx_lookup r (PStr k))
                   ((if x = k then [PStr x] else []) @ (if x = k then [PStr x] else []))"
    by blast
  from l have "idx_lookup r' (PStr x) =
      Some ((case idx_lookup r (PStr x) of None \<Rightarrow> [] | Some vs \<Rightarrow> vs) @ [PStr x, PStr x])"
    by (simp add: extend_def)
  moreover from l have "\<forall>k. k \<noteq> x \<longrightarrow> idx_lookup r' (PStr k) = idx_lookup r (PStr k)"
    by auto
  ultimately show "\<exists>r'. scan_item r (PDict kv) = Inr r' \<and>
            idx_lookup r' (PStr x) =
              Some ((case idx_lookup r (PStr x) of None \<Rightarrow> [] | Some vs \<Rightarrow> vs) @ [PStr x, PStr x]) \<and>
            (\<forall>k. k \<noteq> x \<longrightarrow> idx_lookup r' (PStr k) = idx_lookup r (PStr k))"
    using r' by blast
  from assms show "set_relationships None (PDict [(''objects'', PList [PDict kv])])
           = Inr (Some [(PStr x, [PStr x, PStr x])])"
    by (simp add: set_relationships_def scan_item_def idx_ensure_def)
qed

text \<open>
  A self-loop on X scanned into an index that already maps X to [Y].
\<close>

theorem scan_item_self_loop_witness:
  "(\<exists>r'. scan_item [(PStr ''X'', [PStr ''Y'']), (PStr ''Y'', [PStr ''X''])]
            (PDict [(''type'', PStr ''relationship''),
                    (''source_ref'', PStr ''X''), (''target_ref'', PStr ''X'')]) = Inr r' \<and>
          idx_lookup r' (PStr ''X'') = Some [PStr ''Y'', PStr ''X'', PStr ''X''] \<and>
          idx_lookup r' (PStr ''Y'') = Some [PStr ''X'']) \<and>
   set_relationships None
     (PDict [(''objects'', PList [PDict [(''type'', PStr ''relationship''),
                                         (''source_ref'', PStr ''X''), (''target_ref'', PStr ''X'')]])])
     = Inr (Some [(PStr ''X'', [PStr ''X'', PStr ''X''])])"
proof -
  let ?kv = "[(''type'', PStr ''relationship''),
              (''source_ref'', PStr ''X''), (''target_ref'', PStr ''X'')]"
  let ?r = "[(PStr ''X'', [PStr ''Y'']), (PStr ''Y'', [PStr ''X''])]"
  have a: "map_of ?kv ''type'' = Some (PStr ''relationship'')" by simp
  have b: "map_of ?kv ''source_ref'' = Some (PStr ''X'')" by simp
  have c: "map_of ?kv ''target_ref'' = Some (PStr ''X'')" by simp
  from scan_item_self_loop [OF a b c, of ?r]
  obtain r' where r': "scan_item ?r (PDict ?kv) = Inr r'"
    and x: "idx_lookup r' (PStr ''X'') =
              Some ((case idx_lookup ?r (PStr ''X'') of None \<Rightarrow> [] | Some vs \<Rightarrow> vs)
                    @ [PStr ''X'', PStr ''X''])"
    and o: "\<forall>k. k \<noteq> ''X'' \<longrightarrow> idx_lookup r' (PStr k) = idx_lookup ?r (PStr k)"
    and whole: "set_relationships None (PDict [(''objects'', PList [PDict ?kv])])
           = Inr (Some [(PStr ''X'', [PStr ''X'', PStr ''X''])])"
    by blast
  from x have "idx_lookup r' (PStr ''X'') = Some [PStr ''Y'', PStr ''X'', PStr ''X'']"
    by simp
  moreover from o have "idx_lookup r' (PStr ''Y'') = Some [PStr ''X'']"
    by simp
  ultimately show ?thesis using r' whole by blast
qed

lemma scan_items_nonempty:
  assumes wf: "list_all wf_object objs" and ex: "list_ex (\<lambda>item. edge_of item \<noteq> None) objs"
  shows "\<exists>r. scan_items [] objs = Inr r \<and> r \<noteq> []"
proof -
  from wf obtain r where r: "scan_items [] objs = Inr r"
    and l: "\<forall>k. idx_lookup r (PStr k) = extend (idx_lookup [] (PStr k)) (adjacency k objs)"
    using scan_items_wf by blast
  from ex obtain item s t where item: "item \<in> set objs" and e: "edge_of item = Some (s, t)"
    by (auto simp: list_ex_iff)
  from e have "neighbours s item \<noteq> []" by (simp add: neighbours_def)
  with item have "adjacency s objs \<noteq> []" by (auto simp: adjacency_def)
  with l have "idx_lookup r (PStr s) \<noteq> None" by (simp add: extend_def)
  then have "r \<noteq> []" by auto
  with r show ?thesis by blast
qed

text \<open>
  Claim C2, as the code has it. Once a call of \<^verbatim>\<open>set_relationships\<close> has left an index
  with at least one entry, a further call leaves it as it is, whatever dataset it is
  given: the dataset is not read again. A first call on a dataset of well-formed objects
  with at least one relationship record leaves such an index.
\<close>

theorem set_relationships_keeps_nonempty_index:
  "(set_relationships s0 d1 = Inr s1 \<and> s1 \<noteq> None \<and> s1 \<noteq> Some []
      \<longrightarrow> set_relationships s1 d2 = Inr s1) \<and>
   (map_of ds ''objects'' = Some (PList objs) \<and> list_all wf_object objs \<and>
    list_ex (\<lambda>item. edge_of item \<noteq> None) objs
      \<longrightarrow> (\<exists>r. set_relationships None (PDict ds) = Inr (Some r) \<and> r \<noteq> [] \<and>
                set_relationships (Some r) d2 = Inr (Some r)))"
proof (intro conjI impI)
  assume "set_relationships s0 d1 = Inr s1 \<and> s1 \<noteq> None \<and> s1 \<noteq> Some []"
  then show "set_relationships s1 d2 = Inr s1"
    by (auto simp: set_relationships_def)
next
  assume a: "map_of ds ''objects'' = Some (PList objs) \<and> list_all wf_object objs \<and>
    list_ex (\<lambda>item. edge_of item \<noteq> None) objs"
  then obtain r where r: "scan_items [] objs = Inr r" and ne: "r \<noteq> []"
    using scan_items_nonempty by blast
  from a r have "set_relationships None (PDict ds) = Inr (Some r)"
    by (simp add: set_relationships_def)
  moreover from ne have "set_relationships (Some r) d2 = Inr (Some r)"
    by (simp add: set_relationships_def)
  ultimately show "\<exists>r. set_relationships None (PDict ds) = Inr (Some r) \<and> r \<noteq> [] \<and>
                set_relationships (Some r) d2 = Inr (Some r)"
    using ne by blast
qed

text \<open>
  Two calls with different datasets: the index built from the first is the index after
  the second.
\<close>

theorem set_relationships_keeps_nonempty_index_witness:
  "set_relationships None
     (PDict [(''objects'', PList [PDict [(''type'', PStr ''relationship''),
                                         (''source_ref'', PStr ''A''), (''target_ref'', PStr ''B'')]])])
     = Inr (Some [(PStr ''A'', [PStr ''B'']), (PStr ''B'', [PStr ''A''])]) \<and>
   set_relationships (Some [(PStr ''A'', [PStr ''B'']), (PStr ''B'', [PStr ''A''])])
     (PDict [(''objects'', PList [PDict [(''type'', PStr ''relationship''),
                                         (''source_ref'', PStr ''C''), (''target_ref'', PStr ''D'')]])])
     = Inr (Some [(PStr ''A'', [PStr ''B'']), (PStr ''B'', [PStr ''A''])])"
proof -
  let ?objs = "[PDict [(''type'', PStr ''relationship''),
                       (''source_ref'', PStr ''A''), (''target_ref'', PStr ''B'')]]"
  let ?d1 = "PDict [(''objects'', PList ?objs)]"
  let ?d2 = "PDict [(''objects'', PList [PDict [(''type'', PStr ''relationship''),
                                         (''source_ref'', PStr ''C''), (''target_ref'', PStr ''D'')]])]"
  let ?s1 = "Some [(PStr ''A'', [PStr ''B'']), (PStr ''B'', [PStr ''A''])]"
  have first: "set_relationships None ?d1 = Inr ?s1"
    by (simp add: set_relationships_def scan_item_def idx_ensure_def)
  have "set_relationships ?s1 ?d2 = Inr ?s1"
    using set_relationships_keeps_nonempty_index
      [of None ?d1 ?s1 ?d2 "[(''objects'', PList ?objs)]" ?objs] first
    by simp
  with first show ?thesis by simp
qed

text \<open>
  Claim C2 as stated fails when the first dataset has no relationship record: the
  first call leaves the empty dict, which \<^verbatim>\<open>not AttckObject._RELATIONSHIPS\<close> takes for
  an index not built, and the second call scans its dataset and changes the index.
\<close>

theorem set_relationships_rebuilds_empty_index:
  "set_relationships None (PDict [(''objects'', PList [PDict [(''type'', PStr ''malware'')]])])
     = Inr (Some []) \<and>
   set_relationships (Some [])
     (PDict [(''objects'', PList [PDict [(''type'', PStr ''relationship''),
                                         (''source_ref'', PStr ''A''), (''target_ref'', PStr ''B'')]])])
     = Inr (Some [(PStr ''A'', [PStr ''B'']), (PStr ''B'', [PStr ''A''])]) \<and>
   Some [(PStr ''A'', [PStr ''B'']), (PStr ''B'', [PStr ''A''])] \<noteq> (Some [] :: rel_index option)"
  by (simp add: set_relationships_def scan_item_def idx_ensure_def key_eq_def)

subsection \<open>The data-source dict\<close>

lemma ds_ensure_lookup:
  "map_of (ds_ensure d k) k' =
     (case map_of d k' of Some v \<Rightarrow> Some v | None \<Rightarrow> if k = k' then Some [] else None)"
  by (auto simp: ds_ensure_def map_add_def split: option.splits)

lemma ds_ensure_distinct:
  "distinct (map fst d) \<Longrightarrow> distinct (map fst (ds_ensure d k))"
  by (auto simp: ds_ensure_def map_of_eq_None_iff)

lemma ds_append_lookup:
  "map_of d k = Some vs \<Longrightarrow>
   \<exists>d'. ds_append d k v = Inr d' \<and> map fst d' = map fst d \<and>
        (\<forall>k'. map_of d' k' = (if k' = k then Some (vs @ [v]) else map_of d k'))"
proof (induction d)
  case Nil
  then show ?case by simp
next
  case (Cons kv d)
  obtain k0 vs0 where kv: "kv = (k0, vs0)" by (cases kv)
  show ?case
  proof (cases "k0 = k")
    case True
    with kv Cons.prems show ?thesis by auto
  next
    case False
    with kv Cons.prems have "map_of d k = Some vs" by simp
    then obtain d' where d': "ds_append d k v = Inr d'" "map fst d' = map fst d"
      and l: "\<forall>k'. map_of d' k' = (if k' = k then Some (vs @ [v]) else map_of d k')"
      using Cons.IH by blast
    from False kv d' have "ds_append (kv # d) k v = Inr ((k0, vs0) # d')"
      and "map fst ((k0, vs0) # d') = map fst (kv # d)" by simp_all
    moreover from False kv l have
      "\<forall>k'. map_of ((k0, vs0) # d') k' = (if k' = k then Some (vs @ [v]) else map_of (kv # d) k')"
      by simp
    ultimately show ?thesis by blast
  qed
qed

lemma ds_add_component:
  "\<exists>d'. ds_append (ds_ensure d k) k v = Inr d' \<and>
        (distinct (map fst d) \<longrightarrow> distinct (map fst d')) \<and>
        (\<forall>k'. map_of d' k' = extend (map_of d k') (if k' = k then [v] else []))"
proof -
  obtain vs where vs: "map_of (ds_ensure d k) k = Some vs"
    and vs_def: "vs = (case map_of d k of None \<Rightarrow> [] | Some w \<Rightarrow> w)"
    by (simp add: ds_ensure_lookup split: option.splits)
  from ds_append_lookup [OF vs, of v]
  obtain d' where d': "ds_append (ds_ensure d k) k v = Inr d'"
    and keys: "map fst d' = map fst (ds_ensure d k)"
    and l: "\<forall>k'. map_of d' k' = (if k' = k then Some (vs @ [v]) else map_of (ds_ensure d k) k')"
    by blast
  from keys have "distinct (map fst d) \<longrightarrow> distinct (map fst d')"
    by (simp add: ds_ensure_distinct)
  moreover from l vs_def have
    "\<forall>k'. map_of d' k' = extend (map_of d k') (if k' = k then [v] else [])"
    by (auto simp: extend_def ds_ensure_lookup split: option.splits)
  ultimately show ?thesis using d' by blast
qed

lemma ds_item_string:
  assumes "count_list x CHR '':'' \<le> 1"
  shows "\<exists>d'. ds_item d (PStr x) = Inr d' \<and>
           (distinct (map fst d) \<longrightarrow> distinct (map fst d')) \<and>
           (\<forall>k. map_of d' k = extend (map_of d k) (components_for k [x]))"
proof (cases "CHR '':'' \<in> set x")
  case False
  then show ?thesis
    by (simp add: ds_item_def contains_str_single components_for_def)
next
  case True
  with assms have parts: "split_on CHR '':'' x = [source_of x, component_of x]"
    by (simp add: split_on_one_separator source_of_def component_of_def)
  from ds_add_component [of d "source_of x" "py_strip (component_of x)"]
  obtain d' where d': "ds_append (ds_ensure d (source_of x)) (source_of x) (py_strip (component_of x)) = Inr d'"
    and dist: "distinct (map fst d) \<longrightarrow> distinct (map fst d')"
    and l: "\<forall>k'. map_of d' k' =
              extend (map_of d k') (if k' = source_of x then [py_strip (component_of x)] else [])"
    by blast
  from True parts d' have "ds_item d (PStr x) = Inr d'"
    by (simp add: ds_item_def contains_str_single)
  moreover from True l have "\<forall>k. map_of d' k = extend (map_of d k) (components_for k [x])"
    by (auto simp: components_for_def)
  ultimately show ?thesis using dist by blast
qed

lemma components_for_Cons:
  "components_for k (x # xs) = components_for k [x] @ components_for k xs"
  by (simp add: components_for_def)

lemma ds_items_strings:
  "list_all (\<lambda>x. count_list x CHR '':'' \<le> 1) xs \<Longrightarrow>
   \<exists>d'. ds_items d (map PStr xs) = Inr d' \<and>
        (distinct (map fst d) \<longrightarrow> distinct (map fst d')) \<and>
        (\<forall>k. map_of d' k = extend (map_of d k) (components_for k xs))"
proof (induction xs arbitrary: d)
  case Nil
  then show ?case by (simp add: components_for_def)
next
  case (Cons x xs)
  then have x: "count_list x CHR '':'' \<le> 1"
    and rest: "list_all (\<lambda>x. count_list x CHR '':'' \<le> 1) xs" by simp_all
  from ds_item_string [OF x, of d]
  obtain d1 where d1: "ds_item d (PStr x) = Inr d1"
    and dist1: "distinct (map fst d) \<longrightarrow> distinct (map fst d1)"
    and l1: "\<forall>k. map_of d1 k = extend (map_of d k) (components_for k [x])"
    by blast
  from Cons.IH [OF rest, of d1]
  obtain d' where d': "ds_items d1 (map PStr xs) = Inr d'"
    and dist': "distinct (map fst d1) \<longrightarrow> distinct (map fst d')"
    and l': "\<forall>k. map_of d' k = extend (map_of d1 k) (components_for k xs)"
    by blast
  from d1 d' have "ds_items d (map PStr (x # xs)) = Inr d'" by simp
  moreover from dist1 dist' have "distinct (map fst d) \<longrightarrow> distinct (map fst d')" by simp
  moreover from l1 l' have "\<forall>k. map_of d' k = extend (map_of d k) (components_for k (x # xs))"
    by (simp add: extend_append components_for_Cons [of _ x xs])
  ultimately show ?case by blast
qed

text \<open>
  Claim C9, as the code has it. For every list of strings none of which holds more than
  one \<^verbatim>\<open>:\<close>, \<^verbatim>\<open>_create_data_sources_dict\<close> returns a dict with one key for each source
  that occurs, mapped to the stripped components of the items of that source, in the
  order of the list; items without \<^verbatim>\<open>:\<close> are skipped. An argument that is not a list
  gives the empty dict. The list of the example gives the dict of the example.
\<close>

theorem create_data_sources_dict_groups:
  "(list_all (\<lambda>x. count_list x CHR '':'' \<le> 1) xs \<longrightarrow>
      (\<exists>d. create_data_sources_dict (PList (map PStr xs)) = Inr d \<and>
            distinct (map fst d) \<and>
            (\<forall>k. map_of d k = (if components_for k xs = [] then None
                                else Some (components_for k xs))))) \<and>
   ((\<forall>items. obj \<noteq> PList items) \<longrightarrow> create_data_sources_dict obj = Inr []) \<and>
   create_data_sources_dict
     (PList [PStr ''Process: Process Creation'', PStr ''File:File Access'', PStr ''nocolon''])
     = Inr [(''Process'', [''Process Creation'']), (''File'', [''File Access''])]"
proof (intro conjI impI)
  assume "list_all (\<lambda>x. count_list x CHR '':'' \<le> 1) xs"
  from ds_items_strings [OF this, of "[]"]
  obtain d where d: "ds_items [] (map PStr xs) = Inr d"
    and dist: "distinct (map fst d)"
    and l: "\<forall>k. map_of d k = extend (map_of [] k) (components_for k xs)"
    by auto
  from d have "create_data_sources_dict (PList (map PStr xs)) = Inr d"
    by (simp add: create_data_sources_dict_def)
  moreover from l have "\<forall>k. map_of d k = (if components_for k xs = [] then None
                                else Some (components_for k xs))"
    by (simp add: extend_def)
  ultimately show "\<exists>d. create_data_sources_dict (PList (map PStr xs)) = Inr d \<and>
            distinct (map fst d) \<and>
            (\<forall>k. map_of d k = (if components_for k xs = [] then None
                                else Some (components_for k xs)))"
    using dist by blast
next
  assume "\<forall>items. obj \<noteq> PList items"
  then show "create_data_sources_dict obj = Inr []"
    by (cases obj) (simp_all add: create_data_sources_dict_def)
next
  show "create_data_sources_dict
     (PList [PStr ''Process: Process Creation'', PStr ''File:File Access'', PStr ''nocolon''])
     = Inr [(''Process'', [''Process Creation'']), (''File'', [''File Access''])]"
    by (simp add: create_data_sources_dict_def ds_item_def ds_ensure_def py_strip_def is_space_def)
qed

text \<open>
  The list of the specification's example.
\<close>

theorem create_data_sources_dict_groups_witness:
  "(\<exists>d. create_data_sources_dict
          (PList [PStr ''Process: Process Creation'', PStr ''File:File Access'',
                  PStr ''nocolon'', PStr ''Process:OS API Execution '']) = Inr d \<and>
        map_of d ''Process'' = Some [''Process Creation'', ''OS API Execution''] \<and>
        map_of d ''File'' = Some [''File Access''] \<and>
        map_of d ''nocolon'' = None) \<and>
   create_data_sources_dict PNone = Inr []"
proof -
  let ?xs = "[''Process: Process Creation'', ''File:File Access'', ''nocolon'',
              ''Process:OS API Execution '']"
  have one: "list_all (\<lambda>x. count_list x CHR '':'' \<le> 1) ?xs" by simp
  from create_data_sources_dict_groups [of ?xs PNone] one
  obtain d where d: "create_data_sources_dict (PList (map PStr ?xs)) = Inr d"
    and l: "\<forall>k. map_of d k = (if components_for k ?xs = [] then None
                                else Some (components_for k ?xs))"
    and absent: "create_data_sources_dict PNone = Inr []"
    by auto
  from l have "map_of d ''Process'' = Some [''Process Creation'', ''OS API Execution'']"
    by (simp add: components_for_def source_of_def component_of_def py_strip_def is_space_def)
  moreover from l have "map_of d ''File'' = Some [''File Access'']"
    by (simp add: components_for_def source_of_def component_of_def py_strip_def is_space_def)
  moreover from l have "map_of d ''nocolon'' = None"
    by (simp add: components_for_def source_of_def component_of_def py_strip_def is_space_def)
  ultimately show ?thesis using d absent by simp
qed

text \<open>
  Claim C9 as stated fails on a list of strings one of which holds two separators:
  the unpacking of the three parts raises \<^verbatim>\<open>ValueError\<close>, and no dict is returned.
\<close>

theorem create_data_sources_dict_two_separators:
  "create_data_sources_dict (PList [PStr ''Process: Process Creation'', PStr ''a:b:c''])
     = Inl ValueError"
  by (simp add: create_data_sources_dict_def ds_item_def ds_ensure_def py_strip_def is_space_def)

end
